theory Spec2Isabelle
  imports Main "HOL-Library.Word" "HOL-Library.Sublist" "HOL-Library.Multiset"
begin

section \<open>Capital Jeopardy: the search pipeline, the snapshot and the category card\<close>

text \<open>
  A shallow embedding of \<^verbatim>\<open>App\<close> (constructor, \<^verbatim>\<open>searchClues\<close>, \<^verbatim>\<open>onSearch\<close>) and of
  \<^verbatim>\<open>Category\<close> (\<^verbatim>\<open>markClue\<close>, \<^verbatim>\<open>getHint\<close>, \<^verbatim>\<open>isFavorite\<close>, \<^verbatim>\<open>render\<close>).
  Asynchronous calls run one after the other, so a call that rejects is a result
  \<open>Inl e\<close> and the code after its \<^verbatim>\<open>await\<close> does not run.
\<close>

subsection \<open>Strings\<close>

text \<open>
  A JavaScript string is a sequence of UTF-16 code units. Literals of the source are
  ASCII and are written \<open>lit ''...''\<close>.
\<close>

type_synonym code_unit = "16 word"
type_synonym jsstring = "code_unit list"

definition lit :: "string \<Rightarrow> jsstring" where
  "lit s = map (\<lambda>c. of_nat (of_char c)) s"

text \<open>
  The class \<^verbatim>\<open>\s\<close> of a regular expression: the white space and line terminator code
  points of ECMAScript. \<^verbatim>\<open>\S\<close> is its complement, \<^verbatim>\<open>\d\<close> the ten ASCII digits.
\<close>

definition WhiteSpace :: "code_unit \<Rightarrow> bool" where
  "WhiteSpace c \<longleftrightarrow>
     c \<in> {0x9, 0xA, 0xB, 0xC, 0xD, 0x20, 0xA0, 0x1680, 0x2028, 0x2029, 0x202F, 0x205F,
          0x3000, 0xFEFF}
     \<or> (0x2000 \<le> c \<and> c \<le> 0x200A)"

definition digit :: "code_unit \<Rightarrow> bool" where
  "digit c \<longleftrightarrow> 0x30 \<le> c \<and> c \<le> 0x39"

text \<open>\<^verbatim>\<open>s.replace(/\S/g, "*")\<close>: every code unit that is not white space becomes a star.\<close>

definition star :: code_unit where
  "star = 0x2A"

definition replace_nonspace :: "jsstring \<Rightarrow> jsstring" where
  "replace_nonspace s = map (\<lambda>c. if WhiteSpace c then c else star) s"

text \<open>
  \<^verbatim>\<open>s.substring(a, b)\<close> for non-negative integer arguments: both are clamped to the
  length, and swapped when the first is the larger.
\<close>

definition substring :: "jsstring \<Rightarrow> nat \<Rightarrow> nat \<Rightarrow> jsstring" where
  "substring s a b =
     (let a' = min a (length s); b' = min b (length s);
          from = min a' b'; to = max a' b'
      in take (to - from) (drop from s))"

text \<open>\<^verbatim>\<open>parts.join(sep)\<close>.\<close>

fun join :: "jsstring \<Rightarrow> jsstring list \<Rightarrow> jsstring" where
  "join sep [] = []"
| "join sep [p] = p"
| "join sep (p # q # ps) = p @ sep @ join sep (q # ps)"

subsection \<open>Clues\<close>

text \<open>
  A clue as the clues endpoint returns it. \<open>clue_value\<close> is the field \<^verbatim>\<open>value\<close>, a
  nullable integer: \<open>None\<close> is \<^verbatim>\<open>null\<close> or a missing field. \<open>category_title\<close> is
  \<^verbatim>\<open>category.title\<close>.
\<close>

record clue =
  clue_id :: int
  question :: jsstring
  answer :: jsstring
  clue_value :: "int option"
  category_title :: jsstring
  airdate :: jsstring

subsection \<open>The hint of a clue (category.js, getHint)\<close>

text \<open>
  \<^verbatim>\<open>(clue || {}).answer || ''\<close> is the answer text, and the empty string when there is no
  clue.
\<close>

definition getHint :: "clue option \<Rightarrow> jsstring" where
  "getHint clue =
     (let hint = (case clue of None \<Rightarrow> [] | Some c \<Rightarrow> answer c)
      in if length hint < 3 then replace_nonspace hint
         else let middle = substring hint 1 (length hint - 1)
              in [hint ! 0] @ replace_nonspace middle @ [hint ! (length hint - 1)])"

subsection \<open>Deduplication, defaulting and sorting of one category's clues (onSearch)\<close>

text \<open>
  The loop over the fetched clues keeps a set of the questions seen and pushes a clue
  whose question is new:
  \<^verbatim>\<open>if (!questionSet.has(clue.question)) { questionSet.add(clue.question); uniqueClues.push(clue); }\<close>
\<close>

fun unique_step :: "jsstring set \<times> clue list \<Rightarrow> clue \<Rightarrow> jsstring set \<times> clue list" where
  "unique_step (questionSet, uniqueClues) clue =
     (if question clue \<notin> questionSet
      then (insert (question clue) questionSet, uniqueClues @ [clue])
      else (questionSet, uniqueClues))"

definition uniqueClues :: "clue list \<Rightarrow> clue list" where
  "uniqueClues clues = snd (foldl unique_step ({}, []) clues)"

text \<open>
  \<^verbatim>\<open>clue.value = clue.value ? clue.value : 0\<close>: \<^verbatim>\<open>null\<close>, a missing field and the number
  0 are falsy.
\<close>

definition default_value :: "clue \<Rightarrow> clue" where
  "default_value clue =
     clue\<lparr>clue_value :=
       (case clue_value clue of
          None \<Rightarrow> Some 0
        | Some v \<Rightarrow> if v \<noteq> 0 then Some v else Some 0)\<rparr>"

text \<open>
  The comparator \<^verbatim>\<open>(clue1, clue2) => clue1.value - clue2.value\<close>. The subtraction reads
  \<^verbatim>\<open>null\<close> as 0.
\<close>

definition ToNumber :: "int option \<Rightarrow> int" where
  "ToNumber v = (case v of None \<Rightarrow> 0 | Some n \<Rightarrow> n)"

definition compare_value :: "clue \<Rightarrow> clue \<Rightarrow> int" where
  "compare_value clue1 clue2 = ToNumber (clue_value clue1) - ToNumber (clue_value clue2)"

text \<open>
  \<^verbatim>\<open>Array.prototype.sort\<close> with a comparator. ECMAScript (from its 2019 edition) requires
  the sort to be stable; for a consistent comparator the result is then the one of
  insertion from the right, where an element goes in front of the first element that it
  does not exceed.
\<close>

fun insert_by :: "('a \<Rightarrow> 'a \<Rightarrow> int) \<Rightarrow> 'a \<Rightarrow> 'a list \<Rightarrow> 'a list" where
  "insert_by cmp x [] = [x]"
| "insert_by cmp x (y # ys) =
     (if cmp x y \<le> 0 then x # y # ys else y # insert_by cmp x ys)"

definition Array_sort :: "('a \<Rightarrow> 'a \<Rightarrow> int) \<Rightarrow> 'a list \<Rightarrow> 'a list" where
  "Array_sort cmp xs = foldr (insert_by cmp) xs []"

text \<open>The three steps of the loop body, in the order of the source.\<close>

definition normalizeClues :: "clue list \<Rightarrow> clue list" where
  "normalizeClues clues = Array_sort compare_value (map default_value (uniqueClues clues))"

subsection \<open>The clues request (searchClues)\<close>

record filters =
  min_date :: "jsstring option"
  max_date :: "jsstring option"
  filter_value :: jsstring

text \<open>
  \<open>filter_value\<close> is the field \<^verbatim>\<open>value\<close> of the filters: the text of the selected
  option. A date is \<^verbatim>\<open>undefined\<close> (\<open>None\<close>) or the text of the date input;
  \<^verbatim>\<open>d || dflt\<close> takes the default for \<^verbatim>\<open>undefined\<close> and for the empty string.
\<close>

definition or_else :: "jsstring option \<Rightarrow> jsstring \<Rightarrow> jsstring" where
  "or_else d dflt = (case d of None \<Rightarrow> dflt | Some s \<Rightarrow> if s = [] then dflt else s)"

text \<open>\<^verbatim>\<open>new Date(0).toISOString()\<close>.\<close>

definition epoch_iso :: jsstring where
  "epoch_iso = lit ''1970-01-01T00:00:00.000Z''"

text \<open>
  The URL of the request; \<open>now\<close> is \<^verbatim>\<open>new Date().toISOString()\<close> at the time of the
  call.
\<close>

definition constructedUrl :: "filters \<Rightarrow> jsstring \<Rightarrow> jsstring \<Rightarrow> jsstring" where
  "constructedUrl f now categoryId =
     (let categoryQs = lit ''category='' @ categoryId;
          maxDateQs = lit ''max_date='' @ or_else (max_date f) now;
          minDateQs = lit ''min_date='' @ or_else (min_date f) epoch_iso;
          valueQs = (if filter_value f = lit ''any'' then []
                     else lit ''value='' @ filter_value f)
      in lit ''http://jservice.io/api/clues?''
         @ join (lit ''&'') [maxDateQs, minDateQs, categoryQs, valueQs])"

text \<open>
  The world outside the program. Requests are numbered in the order in which the search
  issues them, so that the clock and the answers of the remote service may change from one
  request to the next.
  \<^item> \<open>clock n\<close>: \<^verbatim>\<open>new Date().toISOString()\<close> at the \<open>n\<close>-th clues request;
  \<^item> \<open>fetch_search text\<close>: the body of the answer to the request for the category search
    page for the search text, \<open>Inl\<close> when \<^verbatim>\<open>encodeURIComponent\<close>, \<^verbatim>\<open>fetch\<close> or
    \<^verbatim>\<open>res.text()\<close> throws or rejects;
  \<^item> \<open>fetch_clues n url\<close>: the clues parsed from the answer to the \<open>n\<close>-th clues request,
    \<open>Inl\<close> when \<^verbatim>\<open>fetch\<close> or \<^verbatim>\<open>res.json()\<close> rejects.

  \<^verbatim>\<open>fetch\<close> rejects when no answer arrives; an answer with a status other than success
  resolves like any other, and the source tests neither \<^verbatim>\<open>res.ok\<close> nor \<^verbatim>\<open>res.status\<close>.
  So \<open>Inr\<close> is an answer of whatever status, and \<open>Inl\<close> a rejected promise.
\<close>

datatype error = RetrievalError | SyntaxError

record env =
  clock :: "nat \<Rightarrow> jsstring"
  fetch_search :: "jsstring \<Rightarrow> error + jsstring"
  fetch_clues :: "nat \<Rightarrow> jsstring \<Rightarrow> error + clue list"

definition searchClues :: "env \<Rightarrow> filters \<Rightarrow> nat \<Rightarrow> jsstring \<Rightarrow> error + clue list" where
  "searchClues e f n categoryId = fetch_clues e n (constructedUrl f (clock e n) categoryId)"

subsection \<open>The search (onSearch)\<close>

text \<open>
  \<^verbatim>\<open>html.match(/popular\/\d+/g) || []\<close>: the matches from left to right, each taking as
  many digits as follow, the scan going on behind a match.
\<close>

function matches :: "jsstring \<Rightarrow> jsstring list" where
  "matches [] = []"
| "matches (c # s) =
     (let ds = takeWhile digit (drop 8 (c # s))
      in if prefix (lit ''popular/'') (c # s) \<and> ds \<noteq> []
         then (lit ''popular/'' @ ds) # matches (dropWhile digit (drop 8 (c # s)))
         else matches s)"
  by pat_completeness auto
termination
  by (relation "measure length")
    (auto simp: less_Suc_eq_le intro!: order_trans [OF length_dropWhile_le])

text \<open>\<^verbatim>\<open>.map(match => match.substr(8))\<close>.\<close>

definition matchedIds :: "jsstring \<Rightarrow> jsstring list" where
  "matchedIds html = map (drop 8) (matches html)"

record category =
  title :: jsstring
  clues :: "clue list"

definition MAX_CATEGORIES :: nat where
  "MAX_CATEGORIES = 12"

text \<open>The record pushed for a category: \<^verbatim>\<open>{title: uniqueClues[0].category.title, clues: uniqueClues}\<close>.\<close>

definition category_of :: "clue list \<Rightarrow> category" where
  "category_of unique = \<lparr>title = category_title (unique ! 0), clues = unique\<rparr>"

text \<open>
  The loop \<^verbatim>\<open>for (let categoryId of matchedIds)\<close>. \<open>n\<close> is the number of the next
  clues request, \<open>cats\<close> the array \<^verbatim>\<open>categories\<close> built so far. A rejected request ends
  the loop with the error; \<^verbatim>\<open>break\<close> ends it with the array.
\<close>

fun search_loop ::
  "env \<Rightarrow> filters \<Rightarrow> nat \<Rightarrow> jsstring list \<Rightarrow> category list \<Rightarrow> error + category list" where
  "search_loop e f n [] cats = Inr cats"
| "search_loop e f n (categoryId # ids) cats =
     (case searchClues e f n categoryId of
        Inl err \<Rightarrow> Inl err
      | Inr fetched \<Rightarrow>
          (let unique = normalizeClues fetched
           in if length unique > 0
              then (let cats' = cats @ [category_of unique]
                    in if length cats' \<ge> MAX_CATEGORIES then Inr cats'
                       else search_loop e f (Suc n) ids cats')
              else search_loop e f (Suc n) ids cats))"

text \<open>An answered clue: \<^verbatim>\<open>{clue: clue, answer: answer}\<close>.\<close>

record answered_clue =
  answered_clue :: clue
  answered_text :: jsstring

record app_state =
  filters :: filters
  searchText :: jsstring
  categories :: "category list"
  answered :: "answered_clue list"
  favorites :: "clue list"
  searching :: bool

text \<open>
  \<open>onSearch\<close> returns how the call ended and the state of the component then. The
  flag is set first; the state with the result is set only behind the loop, so a request
  that rejects leaves the state as the first \<^verbatim>\<open>setState\<close> made it. No other handler runs
  in between. The copy of the state that the handler writes to local storage at its end is
  left out.
\<close>

definition onSearch :: "env \<Rightarrow> app_state \<Rightarrow> (error + unit) \<times> app_state" where
  "onSearch e s =
     (let s1 = s\<lparr>searching := True\<rparr>
      in case fetch_search e (searchText s1) of
           Inl err \<Rightarrow> (Inl err, s1)
         | Inr html \<Rightarrow>
             (case search_loop e (filters s1) 0 (matchedIds html) [] of
                Inl err \<Rightarrow> (Inl err, s1)
              | Inr cats \<Rightarrow> (Inr (), s1\<lparr>searching := False, categories := cats\<rparr>)))"

subsection \<open>The category card (category.js)\<close>

datatype mark = primary | success | danger

text \<open>\<open>markClue\<close>: the colour of a clue's button.\<close>

definition markClue :: "answered_clue list \<Rightarrow> clue option \<Rightarrow> mark" where
  "markClue answd clue =
     (case clue of
        None \<Rightarrow> primary
      | Some c \<Rightarrow>
          (let clueMatchedAnswers = filter (\<lambda>a. clue_id (answered_clue a) = clue_id c) answd
           in if length clueMatchedAnswers = 0 then primary
              else if list_ex (\<lambda>a. answered_text a = answer c) clueMatchedAnswers then success
              else danger))"

text \<open>\<open>isFavorite\<close>; with no clue the question compared with is \<^verbatim>\<open>undefined\<close>.\<close>

definition isFavorite :: "clue list \<Rightarrow> clue option \<Rightarrow> bool" where
  "isFavorite favs clue =
     (case clue of
        None \<Rightarrow> False
      | Some c \<Rightarrow> list_ex (\<lambda>fav. question fav = question c) favs)"

text \<open>\<^verbatim>\<open>xs.slice(a, b)\<close> for non-negative integer arguments.\<close>

definition slice :: "nat \<Rightarrow> nat \<Rightarrow> 'a list \<Rightarrow> 'a list" where
  "slice a b xs = take (b - a) (drop a xs)"

text \<open>
  A button of the front of the card: the clue its click selects, its colour, whether it is
  highlighted, the value after the dollar sign, and whether the heart is shown.
\<close>

record button =
  on_click :: clue
  btn_mark :: mark
  bg_warning :: bool
  dollars :: "int option"
  heart :: bool

record category_state =
  category :: category
  selectedClue :: "clue option"
  answer_input :: jsstring

definition first5Clues :: "category_state \<Rightarrow> clue list" where
  "first5Clues st = slice 0 5 (clues (category st))"

definition listItems :: "answered_clue list \<Rightarrow> clue list \<Rightarrow> category_state \<Rightarrow> button list" where
  "listItems answd favs st =
     map (\<lambda>clue. \<lparr>on_click = clue, btn_mark = markClue answd (Some clue),
                  bg_warning = (selectedClue st \<noteq> None), dollars = clue_value clue,
                  heart = isFavorite favs (Some clue)\<rparr>)
         (first5Clues st)"

subsection \<open>The saved state (App, constructor)\<close>

text \<open>
  The values that \<^verbatim>\<open>JSON.parse\<close> returns and that the state is made of. Numbers are the
  integer ones. An object is the list of its own properties in their order.
\<close>

datatype js =
    Undefined
  | Null
  | Boolean bool
  | Number int
  | String jsstring
  | Array "js list"
  | Object "(jsstring \<times> js) list"

text \<open>
  What local storage holds under the key \<^verbatim>\<open>app-state\<close>: nothing (\<open>None\<close>, for which
  \<^verbatim>\<open>getItem\<close> returns \<^verbatim>\<open>null\<close>), a string that is the JSON text of a value, or a string
  that is no JSON text.
\<close>

datatype item = JSONText js | NotJSON jsstring

text \<open>
  \<^verbatim>\<open>JSON.parse(localStorage.getItem('app-state'))\<close>. \<^verbatim>\<open>JSON.parse\<close> turns its argument
  into a string first, so \<^verbatim>\<open>null\<close> is parsed as the text "null"; a string that is no
  JSON text makes it throw a SyntaxError.
\<close>

fun JSON_parse :: "item option \<Rightarrow> error + js" where
  "JSON_parse None = Inr Null"
| "JSON_parse (Some (JSONText v)) = Inr v"
| "JSON_parse (Some (NotJSON s)) = Inl SyntaxError"

text \<open>The condition \<^verbatim>\<open>if (savedState)\<close>.\<close>

fun truthy :: "js \<Rightarrow> bool" where
  "truthy Undefined = False"
| "truthy Null = False"
| "truthy (Boolean b) = b"
| "truthy (Number n) = (n \<noteq> 0)"
| "truthy (String s) = (s \<noteq> [])"
| "truthy (Array xs) = True"
| "truthy (Object kvs) = True"

text \<open>The decimal text of an array index.\<close>

fun index_key :: "nat \<Rightarrow> jsstring" where
  "index_key n =
     (if n < 10 then [of_nat (48 + n)]
      else index_key (n div 10) @ [of_nat (48 + n mod 10)])"

text \<open>
  The own enumerable properties that \<^verbatim>\<open>{...v}\<close> copies: those of an object, the indexed
  elements of an array, the indexed characters of a string, none of any other value.
\<close>

fun spread :: "js \<Rightarrow> (jsstring \<times> js) list" where
  "spread (Object kvs) = kvs"
| "spread (Array xs) = zip (map index_key [0..<length xs]) xs"
| "spread (String s) = zip (map index_key [0..<length s]) (map (\<lambda>c. String [c]) s)"
| "spread v = []"

definition INITIAL_STATE :: js where
  "INITIAL_STATE =
     Object
      [(lit ''filters'',
          Object [(lit ''min_date'', Undefined), (lit ''max_date'', Undefined),
                  (lit ''value'', String (lit ''any''))]),
       (lit ''searchText'', String []),
       (lit ''categories'', Array []),
       (lit ''answered'', Array []),
       (lit ''favorites'', Array []),
       (lit ''searching'', Boolean False)]"

text \<open>
  The constructor returns the first state of the component, or the error that
  \<^verbatim>\<open>JSON.parse\<close> throws.
\<close>

definition App_constructor :: "item option \<Rightarrow> error + js" where
  "App_constructor stored =
     (case JSON_parse stored of
        Inl err \<Rightarrow> Inl err
      | Inr savedState \<Rightarrow>
          if truthy savedState then Inr (Object (spread savedState))
          else Inr (Object (spread INITIAL_STATE)))"

subsection \<open>Reading a query string\<close>

text \<open>
  The query of a URL text and its parameters, by the syntax of URLs: the fragment begins at
  the first number sign, the query behind the first question mark in front of the
  fragment; the parameters are the pieces of the query between ampersands, and the name of
  a parameter ends in front of its first equals sign.
\<close>

fun split_on :: "'a \<Rightarrow> 'a list \<Rightarrow> 'a list list" where
  "split_on sep [] = [[]]"
| "split_on sep (c # s) =
     (if c = sep then [] # split_on sep s
      else (case split_on sep s of p # ps \<Rightarrow> (c # p) # ps | [] \<Rightarrow> [[c]]))"

definition url_query :: "jsstring \<Rightarrow> jsstring" where
  "url_query url = drop 1 (dropWhile (\<lambda>c. c \<noteq> 0x3F) (takeWhile (\<lambda>c. c \<noteq> 0x23) url))"

definition query_params :: "jsstring \<Rightarrow> jsstring list" where
  "query_params url = split_on 0x26 (url_query url)"

definition param_name :: "jsstring \<Rightarrow> jsstring" where
  "param_name p = takeWhile (\<lambda>c. c \<noteq> 0x3D) p"

text \<open>
  A text with neither an ampersand nor a number sign: a category identifier (digits), the
  text of a date input, an ISO time stamp and the text of a difficulty option are such
  texts.
\<close>

definition plain_text :: "jsstring \<Rightarrow> bool" where
  "plain_text s \<longleftrightarrow> 0x26 \<notin> set s \<and> 0x23 \<notin> set s"

subsection \<open>Example data\<close>

text \<open>Filters with a fixed value, a maximum date and an emptied minimum date.\<close>

definition fixed_filters :: filters where
  "fixed_filters =
     \<lparr>min_date = Some [], max_date = Some (lit ''2019-12-31''), filter_value = lit ''200''\<rparr>"

definition example_clue :: "int \<Rightarrow> string \<Rightarrow> string \<Rightarrow> int option \<Rightarrow> clue" where
  "example_clue i q a v =
     \<lparr>clue_id = i, question = lit q, answer = lit a, clue_value = v,
      category_title = lit ''ANIMALS'', airdate = lit ''2001-01-01T12:00:00.000Z''\<rparr>"

text \<open>
  A search page with three category links, and a service whose second clues request is
  rejected while every other one returns one clue.
\<close>

definition example_page :: jsstring where
  "example_page = lit ''<a href=/popular/1>a</a><a href=/popular/22>b</a> /popular/3''"

definition failing_env :: env where
  "failing_env =
     \<lparr>clock = (\<lambda>n. lit ''2020-02-02T10:00:00.000Z''),
      fetch_search = (\<lambda>text. Inr example_page),
      fetch_clues = (\<lambda>n url. if n = 1 then Inl RetrievalError
                               else Inr [example_clue 7 ''Q7'' ''ox'' (Some 100)])\<rparr>"

text \<open>A service that returns no clue for the first request and two clues for every later one.\<close>

definition working_env :: env where
  "working_env =
     \<lparr>clock = (\<lambda>n. lit ''2020-02-02T10:00:00.000Z''),
      fetch_search = (\<lambda>text. Inr example_page),
      fetch_clues = (\<lambda>n url. if n = 0 then Inr []
                               else Inr [example_clue 7 ''Q7'' ''ox'' (Some 200),
                                         example_clue 8 ''Q8'' ''cat'' None])\<rparr>"

definition example_filters :: filters where
  "example_filters = \<lparr>min_date = None, max_date = None, filter_value = lit ''any''\<rparr>"

definition example_state :: app_state where
  "example_state =
     \<lparr>filters = example_filters, searchText = lit ''animals'', categories = [],
      answered = [], favorites = [], searching = False\<rparr>"

text \<open>
  Filters whose maximum date carries an ampersand, filters whose maximum date carries a
  number sign, and a service that answers every clues request with one clue whose question
  is the URL requested.
\<close>

definition injected_filters :: filters where
  "injected_filters =
     \<lparr>min_date = None, max_date = Some (lit ''2020-01-01&value=200''),
      filter_value = lit ''any''\<rparr>"

definition fragment_filters :: filters where
  "fragment_filters =
     \<lparr>min_date = None, max_date = Some (lit ''2020-01-01#top''),
      filter_value = lit ''any''\<rparr>"

definition echo_clue :: "jsstring \<Rightarrow> clue" where
  "echo_clue url =
     \<lparr>clue_id = 0, question = url, answer = [], clue_value = None, category_title = [],
      airdate = []\<rparr>"

definition echo_env :: env where
  "echo_env =
     \<lparr>clock = (\<lambda>n. lit ''2020-02-02T10:00:00.000Z''),
      fetch_search = (\<lambda>text. Inr example_page),
      fetch_clues = (\<lambda>n url. Inr [echo_clue url])\<rparr>"



text \<open>A card with six clues.\<close>

definition six_clues :: category_state where
  "six_clues =
     \<lparr>category =
        \<lparr>title = lit ''ANIMALS'',
         clues = [example_clue 1 ''Q1'' ''cat'' (Some 0), example_clue 2 ''Q2'' ''ox'' (Some 100),
                  example_clue 3 ''Q3'' ''emu'' (Some 200), example_clue 4 ''Q4'' ''yak'' (Some 300),
                  example_clue 5 ''Q5'' ''gnu'' (Some 400), example_clue 6 ''Q6'' ''eel'' (Some 500)]\<rparr>,
      selectedClue = None, answer_input = []\<rparr>"

section \<open>Theorems\<close>

subsection \<open>The hint\<close>

lemma substring_middle:
  "3 \<le> length s \<Longrightarrow>
   substring s (Suc 0) (length s - Suc 0) = take (length s - 2) (drop (Suc 0) s)"
  by (simp add: substring_def Let_def min_def max_def numeral_2_eq_2)

lemma getHint_length: "length (getHint (Some c)) = length (answer c)"
proof (cases "3 \<le> length (answer c)")
  case True
  then show ?thesis
    by (simp add: getHint_def Let_def replace_nonspace_def substring_middle)
next
  case False
  then show ?thesis
    by (simp add: getHint_def Let_def replace_nonspace_def)
qed

lemma getHint_short:
  "length (answer c) < 3 \<Longrightarrow> i < length (answer c) \<Longrightarrow>
   getHint (Some c) ! i = (if WhiteSpace (answer c ! i) then answer c ! i else star)"
  by (simp add: getHint_def replace_nonspace_def)

lemma getHint_long:
  assumes "3 \<le> length (answer c)" and "i < length (answer c)"
  shows "getHint (Some c) ! i =
     (if i = 0 \<or> i = length (answer c) - 1 \<or> WhiteSpace (answer c ! i) then answer c ! i
      else star)"
proof -
  let ?a = "answer c"
  let ?m = "replace_nonspace (take (length ?a - 2) (drop (Suc 0) ?a))"
  have g: "getHint (Some c) = (?a ! 0) # ?m @ [?a ! (length ?a - 1)]"
    using assms(1) by (simp add: getHint_def Let_def substring_middle)
  have lm: "length ?m = length ?a - 2"
    using assms(1) by (simp add: replace_nonspace_def)
  consider "i = 0" | "i = length ?a - 1" | "0 < i" "i < length ?a - 1"
    using assms(2) by linarith
  then show ?thesis
  proof cases
    case 1
    then show ?thesis by (simp add: g)
  next
    case 2
    have "i = Suc (length ?m)"
      using 2 assms(1) unfolding lm by linarith
    then have "getHint (Some c) ! i = ?a ! (length ?a - 1)"
      unfolding g by (simp only: nth_Cons_Suc nth_append_length)
    then show ?thesis using 2 by simp
  next
    case 3
    then obtain j where j: "i = Suc j" "j < length ?a - 2"
      by (cases i) auto
    have "getHint (Some c) ! i = ?m ! j"
      using j lm by (simp add: g nth_append)
    also have "\<dots> = (if WhiteSpace (?a ! i) then ?a ! i else star)"
      using j by (simp add: replace_nonspace_def)
    finally show ?thesis using 3 by simp
  qed
qed

text \<open>
  C9. The hint has the length of the answer text. In an answer of three or more code
  units the first and the last one are kept and every other code unit that is not white
  space is a star; in an answer of fewer than three, every code unit that is not white
  space is a star. White space is kept everywhere. The hint of "cat" is "c*t" and the hint
  of "ox" is "**".
\<close>

theorem getHint_masks_interior:
  "length (getHint (Some c)) = length (answer c)
   \<and> (\<forall>i < length (answer c).
        getHint (Some c) ! i =
          (if WhiteSpace (answer c ! i)
              \<or> (3 \<le> length (answer c) \<and> (i = 0 \<or> i = length (answer c) - 1))
           then answer c ! i else star))
   \<and> getHint (Some (c\<lparr>answer := lit ''cat''\<rparr>)) = lit ''c*t''
   \<and> getHint (Some (c\<lparr>answer := lit ''ox''\<rparr>)) = lit ''**''"
proof (intro conjI allI impI)
  show "length (getHint (Some c)) = length (answer c)"
    by (rule getHint_length)
next
  fix i assume i: "i < length (answer c)"
  show "getHint (Some c) ! i =
          (if WhiteSpace (answer c ! i)
              \<or> (3 \<le> length (answer c) \<and> (i = 0 \<or> i = length (answer c) - 1))
           then answer c ! i else star)"
  proof (cases "3 \<le> length (answer c)")
    case True
    then show ?thesis using getHint_long [OF True i] by auto
  next
    case False
    then have "length (answer c) < 3" by simp
    then show ?thesis using getHint_short [OF _ i] False by simp
  qed
next
  show "getHint (Some (c\<lparr>answer := lit ''cat''\<rparr>)) = lit ''c*t''"
    by (simp add: getHint_def Let_def lit_def substring_def replace_nonspace_def
        WhiteSpace_def star_def)
next
  show "getHint (Some (c\<lparr>answer := lit ''ox''\<rparr>)) = lit ''**''"
    by (simp add: getHint_def Let_def lit_def replace_nonspace_def WhiteSpace_def star_def)
qed

text \<open>
  A witness for C9: in the hint of "hot dog" the second code unit is a star and the blank
  stays.
\<close>

theorem getHint_masks_interior_witness:
  "(1::nat) < length (answer (example_clue 1 ''Q'' ''hot dog'' None))
   \<and> getHint (Some (example_clue 1 ''Q'' ''hot dog'' None)) ! 1 = star
   \<and> getHint (Some (example_clue 1 ''Q'' ''hot dog'' None)) ! 3 = 0x20"
proof -
  let ?c = "example_clue 1 ''Q'' ''hot dog'' None"
  have a: "answer ?c = [104, 111, 116, 32, 100, 111, 103]"
    by (simp add: example_clue_def lit_def)
  have every: "\<forall>i < length (answer ?c).
          getHint (Some ?c) ! i =
            (if WhiteSpace (answer ?c ! i)
                \<or> (3 \<le> length (answer ?c) \<and> (i = 0 \<or> i = length (answer ?c) - 1))
             then answer ?c ! i else star)"
    using getHint_masks_interior [of ?c] by blast
  have "getHint (Some ?c) ! 1 = star"
    using every [rule_format, of 1] by (simp add: a WhiteSpace_def)
  moreover have "getHint (Some ?c) ! 3 = 0x20"
    using every [rule_format, of 3] by (simp add: a WhiteSpace_def)
  ultimately show ?thesis
    by (simp add: a)
qed

subsection \<open>Deduplication, defaulting and sorting\<close>

lemma fst_foldl_unique_step:
  "fst (foldl unique_step (S, acc) xs) = S \<union> question ` set xs"
  by (induction xs arbitrary: S acc) auto

lemma uniqueClues_Nil: "uniqueClues [] = []"
  by (simp add: uniqueClues_def)

lemma uniqueClues_snoc:
  "uniqueClues (xs @ [x]) =
     (if question x \<in> question ` set xs then uniqueClues xs else uniqueClues xs @ [x])"
proof -
  obtain S acc where st: "foldl unique_step ({}, []) xs = (S, acc)"
    by (cases "foldl unique_step ({}, []) xs")
  have "S = question ` set xs"
    using fst_foldl_unique_step [of "{}" "[]" xs] st by simp
  then show ?thesis
    by (simp add: uniqueClues_def st)
qed

lemma find_append:
  "find P (xs @ ys) = (case find P xs of None \<Rightarrow> find P ys | Some x \<Rightarrow> Some x)"
  by (induction xs) simp_all

lemma find_SomeD: "find P xs = Some x \<Longrightarrow> x \<in> set xs \<and> P x"
  by (induction xs) (auto split: if_splits)

lemma set_uniqueClues: "set (uniqueClues xs) \<subseteq> set xs"
  by (induction xs rule: rev_induct) (auto simp: uniqueClues_Nil uniqueClues_snoc)

lemma filter_question_uniqueClues:
  "filter (\<lambda>c. question c = q) (uniqueClues xs) =
     (case find (\<lambda>c. question c = q) xs of None \<Rightarrow> [] | Some c \<Rightarrow> [c])"
proof (induction xs rule: rev_induct)
  case Nil
  then show ?case by (simp add: uniqueClues_Nil)
next
  case (snoc x xs)
  show ?case
  proof (cases "question x \<in> question ` set xs")
    case True
    then show ?thesis
      using snoc
      by (auto simp: uniqueClues_snoc find_append find_None_iff image_iff
          split: option.splits dest: find_SomeD)
  next
    case False
    then show ?thesis
      using snoc
      by (auto simp: uniqueClues_snoc find_append find_None_iff image_iff
          split: option.splits dest: find_SomeD)
  qed
qed

lemma insert_by_compare_value:
  "insert_by compare_value x ys = insort_key (\<lambda>c. ToNumber (clue_value c)) x ys"
  by (induction ys) (simp_all add: compare_value_def)

lemma Array_sort_compare_value:
  "Array_sort compare_value xs = sort_key (\<lambda>c. ToNumber (clue_value c)) xs"
  by (induction xs) (simp_all add: Array_sort_def insert_by_compare_value)

lemma question_default_value: "question (default_value c) = question c"
  by (simp add: default_value_def)

lemma clue_value_default_value:
  "clue_value (default_value c) = Some (ToNumber (clue_value c))"
  by (simp add: default_value_def ToNumber_def split: option.splits)

lemma filter_question_normalizeClues:
  "filter (\<lambda>c. question c = q) (normalizeClues xs) =
     (case find (\<lambda>c. question c = q) xs of None \<Rightarrow> [] | Some c \<Rightarrow> [default_value c])"
proof -
  let ?f = "\<lambda>c. ToNumber (clue_value c)"
  have "filter (\<lambda>c. question c = q) (normalizeClues xs) =
        sort_key ?f (map default_value (filter (\<lambda>c. question c = q) (uniqueClues xs)))"
    by (simp add: normalizeClues_def Array_sort_compare_value filter_sort filter_map o_def
        question_default_value)
  also have "\<dots> = (case find (\<lambda>c. question c = q) xs of None \<Rightarrow> [] | Some c \<Rightarrow> [default_value c])"
    by (simp add: filter_question_uniqueClues split: option.splits)
  finally show ?thesis .
qed

lemma distinct_question_uniqueClues: "distinct (map question (uniqueClues xs))"
proof (induction xs rule: rev_induct)
  case Nil
  then show ?case by (simp add: uniqueClues_Nil)
next
  case (snoc x xs)
  then show ?case
    using set_uniqueClues [of xs] by (auto simp: uniqueClues_snoc)
qed

lemma distinct_question_normalizeClues: "distinct (map question (normalizeClues xs))"
proof -
  have "mset (map question (normalizeClues xs)) = mset (map question (uniqueClues xs))"
    by (simp add: normalizeClues_def Array_sort_compare_value multiset.map_comp o_def
        question_default_value)
  then show ?thesis
    using distinct_question_uniqueClues [of xs] mset_eq_imp_distinct_iff by blast
qed

lemma uniqueClues_map_default_value:
  "uniqueClues (map default_value xs) = map default_value (uniqueClues xs)"
proof (induction xs rule: rev_induct)
  case Nil
  then show ?case by (simp add: uniqueClues_Nil)
next
  case (snoc x xs)
  have "question ` default_value ` set xs = question ` set xs"
    by (simp add: image_image question_default_value)
  then show ?case
    using snoc by (simp add: uniqueClues_snoc question_default_value)
qed

lemma sorted_normalizeClues:
  "sorted (map (\<lambda>c. ToNumber (clue_value c)) (normalizeClues xs))"
  by (simp add: normalizeClues_def Array_sort_compare_value)

lemma stable_normalizeClues:
  "filter (\<lambda>c. ToNumber (clue_value c) = v) (normalizeClues xs) =
   filter (\<lambda>c. ToNumber (clue_value c) = v) (map default_value (uniqueClues xs))"
  by (simp add: normalizeClues_def Array_sort_compare_value sort_key_stable)

lemma set_normalizeClues: "set (normalizeClues xs) = default_value ` set (uniqueClues xs)"
  by (simp add: normalizeClues_def Array_sort_compare_value)

text \<open>
  C2. No two clues of the result have the same question text, and for every question text
  the result holds exactly the first clue of the input with that text (with its value
  defaulted), or none when the input has no such clue.
\<close>

theorem normalizeClues_keeps_first_of_each_question:
  "distinct (map question (normalizeClues fetched))
   \<and> (\<forall>q. filter (\<lambda>c. question c = q) (normalizeClues fetched) =
          (case find (\<lambda>c. question c = q) fetched of
             None \<Rightarrow> []
           | Some c \<Rightarrow> [default_value c]))"
  by (simp add: distinct_question_normalizeClues filter_question_normalizeClues)

text \<open>
  A witness for C2: of two clues with the question "Q1" the first one is kept, with its
  missing value defaulted.
\<close>

theorem normalizeClues_keeps_first_of_each_question_witness:
  "filter (\<lambda>c. question c = lit ''Q1'')
      (normalizeClues
        [example_clue 1 ''Q1'' ''cat'' None, example_clue 2 ''Q1'' ''cat'' (Some 200),
         example_clue 3 ''Q2'' ''ox'' (Some 100)])
     = [example_clue 1 ''Q1'' ''cat'' (Some 0)]"
  using normalizeClues_keeps_first_of_each_question
    [of "[example_clue 1 ''Q1'' ''cat'' None, example_clue 2 ''Q1'' ''cat'' (Some 200),
          example_clue 3 ''Q2'' ''ox'' (Some 100)]"]
  by (simp add: example_clue_def default_value_def)

text \<open>
  C3. The result is sorted by value, smallest first, and the clues of any one value stand
  in the order they had after deduplication.
\<close>

theorem normalizeClues_sorted_and_stable:
  "sorted (map (\<lambda>c. ToNumber (clue_value c)) (normalizeClues fetched))
   \<and> (\<forall>v. filter (\<lambda>c. ToNumber (clue_value c) = v) (normalizeClues fetched) =
          filter (\<lambda>c. ToNumber (clue_value c) = v) (map default_value (uniqueClues fetched)))"
  by (simp add: sorted_normalizeClues stable_normalizeClues)

text \<open>
  A witness for C3: the two clues of value 100 keep their order behind the clue without a
  value and in front of the clue of value 200.
\<close>

theorem normalizeClues_sorted_and_stable_witness:
  "filter (\<lambda>c. ToNumber (clue_value c) = 100)
      (normalizeClues
        [example_clue 1 ''Q1'' ''cat'' (Some 200), example_clue 3 ''Q3'' ''emu'' (Some 100),
         example_clue 2 ''Q2'' ''ox'' (Some 100), example_clue 4 ''Q4'' ''yak'' None])
     = [example_clue 3 ''Q3'' ''emu'' (Some 100), example_clue 2 ''Q2'' ''ox'' (Some 100)]"
  using normalizeClues_sorted_and_stable
    [of "[example_clue 1 ''Q1'' ''cat'' (Some 200), example_clue 3 ''Q3'' ''emu'' (Some 100),
          example_clue 2 ''Q2'' ''ox'' (Some 100), example_clue 4 ''Q4'' ''yak'' None]"]
  by (simp add: example_clue_def default_value_def uniqueClues_def ToNumber_def lit_def)

text \<open>
  C4. The clues of the result are the deduplicated clues with \<open>default_value\<close> applied:
  a clue without a value that deduplication keeps is in the result with value 0, a clue
  of the input without a value is never in the result as it was, a kept clue with a value
  is in the result as it was, and no clue of the result is without a value. The defaulting comes before the sort, and applying it before the
  deduplication as well gives the same result; the result is sorted by the defaulted
  values, and every button of a card made of the result shows a value.
\<close>

theorem normalizeClues_null_value_is_zero:
  "set (normalizeClues fetched) = default_value ` set (uniqueClues fetched)
   \<and> (\<forall>c \<in> set fetched. clue_value c = None
        \<longrightarrow> c \<notin> set (normalizeClues fetched)
            \<and> (c \<in> set (uniqueClues fetched)
                 \<longrightarrow> c\<lparr>clue_value := Some 0\<rparr> \<in> set (normalizeClues fetched)))
   \<and> (\<forall>c \<in> set (uniqueClues fetched). clue_value c \<noteq> None
        \<longrightarrow> c \<in> set (normalizeClues fetched))
   \<and> (\<forall>d \<in> set (normalizeClues fetched). clue_value d \<noteq> None)
   \<and> normalizeClues fetched = Array_sort compare_value (map default_value (uniqueClues fetched))
   \<and> normalizeClues fetched = Array_sort compare_value (uniqueClues (map default_value fetched))
   \<and> sorted (map (\<lambda>c. ToNumber (clue_value c)) (normalizeClues fetched))
   \<and> (\<forall>st. clues (category st) = normalizeClues fetched
        \<longrightarrow> (\<forall>b \<in> set (listItems answd favs st). dollars b \<noteq> None))"
proof -
  have out: "set (normalizeClues fetched) = default_value ` set (uniqueClues fetched)"
    by (rule set_normalizeClues)
  have valued: "\<forall>d \<in> set (normalizeClues fetched). clue_value d \<noteq> None"
    by (auto simp: set_normalizeClues clue_value_default_value)
  have nulls: "\<forall>c \<in> set fetched. clue_value c = None
        \<longrightarrow> c \<notin> set (normalizeClues fetched)
            \<and> (c \<in> set (uniqueClues fetched)
                 \<longrightarrow> c\<lparr>clue_value := Some 0\<rparr> \<in> set (normalizeClues fetched))"
  proof (intro ballI impI conjI)
    fix c :: clue
    assume "clue_value c = None"
    then show "c \<notin> set (normalizeClues fetched)"
      using valued by blast
  next
    fix c :: clue
    assume n: "clue_value c = None" and k: "c \<in> set (uniqueClues fetched)"
    have "default_value c = c\<lparr>clue_value := Some 0\<rparr>"
      using n by (simp add: default_value_def)
    then show "c\<lparr>clue_value := Some 0\<rparr> \<in> set (normalizeClues fetched)"
      using k out by force
  qed
  have others: "\<forall>c \<in> set (uniqueClues fetched). clue_value c \<noteq> None
        \<longrightarrow> c \<in> set (normalizeClues fetched)"
  proof (intro ballI impI)
    fix c :: clue
    assume k: "c \<in> set (uniqueClues fetched)"
      and v: "clue_value c \<noteq> None"
    have "default_value c = c"
      using v by (cases "clue_value c") (simp_all add: default_value_def)
    then show "c \<in> set (normalizeClues fetched)"
      using k out by force
  qed
  have before_sort:
    "normalizeClues fetched = Array_sort compare_value (map default_value (uniqueClues fetched))"
    by (simp add: normalizeClues_def)
  have before_dedup:
    "normalizeClues fetched = Array_sort compare_value (uniqueClues (map default_value fetched))"
    by (simp add: normalizeClues_def uniqueClues_map_default_value)
  have srt: "sorted (map (\<lambda>c. ToNumber (clue_value c)) (normalizeClues fetched))"
    by (rule sorted_normalizeClues)
  have shown: "\<forall>st. clues (category st) = normalizeClues fetched
        \<longrightarrow> (\<forall>b \<in> set (listItems answd favs st). dollars b \<noteq> None)"
  proof (intro allI impI ballI)
    fix st b
    assume c: "clues (category st) = normalizeClues fetched"
      and b: "b \<in> set (listItems answd favs st)"
    then obtain d where "d \<in> set (take 5 (normalizeClues fetched))" "dollars b = clue_value d"
      by (auto simp: listItems_def first5Clues_def slice_def)
    then show "dollars b \<noteq> None"
      using valued by (auto dest: in_set_takeD)
  qed
  show ?thesis
    using out nulls others valued before_sort before_dedup srt shown by blast
qed

text \<open>
  A witness for C4: the scenario of the specification, where the first clue has no value
  and is kept; the result holds it with value 0.
\<close>

theorem normalizeClues_null_value_is_zero_witness:
  "example_clue 1 ''Q1'' ''cat'' None
     \<in> set [example_clue 1 ''Q1'' ''cat'' None, example_clue 2 ''Q1'' ''cat'' (Some 200),
            example_clue 3 ''Q2'' ''ox'' (Some 100)]
   \<and> clue_value (example_clue 1 ''Q1'' ''cat'' None) = None
   \<and> example_clue 1 ''Q1'' ''cat'' None
       \<in> set (uniqueClues
                [example_clue 1 ''Q1'' ''cat'' None, example_clue 2 ''Q1'' ''cat'' (Some 200),
                 example_clue 3 ''Q2'' ''ox'' (Some 100)])
   \<and> example_clue 1 ''Q1'' ''cat'' (Some 0)
       \<in> set (normalizeClues
                [example_clue 1 ''Q1'' ''cat'' None, example_clue 2 ''Q1'' ''cat'' (Some 200),
                 example_clue 3 ''Q2'' ''ox'' (Some 100)])"
proof -
  let ?c = "example_clue 1 ''Q1'' ''cat'' None"
  let ?xs = "[?c, example_clue 2 ''Q1'' ''cat'' (Some 200), example_clue 3 ''Q2'' ''ox'' (Some 100)]"
  have h1: "?c \<in> set ?xs" by simp
  have h2: "clue_value ?c = None"
    by (simp add: example_clue_def)
  have h3: "?c \<in> set (uniqueClues ?xs)"
    by (simp add: uniqueClues_def example_clue_def lit_def)
  have "?c\<lparr>clue_value := Some 0\<rparr> \<in> set (normalizeClues ?xs)"
    using normalizeClues_null_value_is_zero [of ?xs] h1 h2 h3 by blast
  moreover have "?c\<lparr>clue_value := Some 0\<rparr> = example_clue 1 ''Q1'' ''cat'' (Some 0)"
    by (simp add: example_clue_def)
  ultimately show ?thesis
    using h1 h2 h3 by simp
qed

subsection \<open>The search\<close>

lemma search_loop_capped:
  "length cats < MAX_CATEGORIES \<Longrightarrow> \<forall>c \<in> set cats. clues c \<noteq> [] \<Longrightarrow>
   search_loop e f n ids cats = Inr out \<Longrightarrow>
   length out \<le> MAX_CATEGORIES \<and> (\<forall>c \<in> set out. clues c \<noteq> [])"
proof (induction ids arbitrary: n cats)
  case Nil
  then show ?case by auto
next
  case (Cons categoryId ids)
  from Cons.prems(3) obtain fetched where r: "searchClues e f n categoryId = Inr fetched"
    by (cases "searchClues e f n categoryId") auto
  let ?u = "normalizeClues fetched"
  show ?case
  proof (cases "?u = []")
    case True
    then have "search_loop e f (Suc n) ids cats = Inr out"
      using Cons.prems(3) r by simp
    then show ?thesis
      using Cons.IH Cons.prems(1,2) by blast
  next
    case False
    let ?cats' = "cats @ [category_of ?u]"
    have ne: "\<forall>c \<in> set ?cats'. clues c \<noteq> []"
      using Cons.prems(2) False by (auto simp: category_of_def)
    show ?thesis
    proof (cases "length ?cats' \<ge> MAX_CATEGORIES")
      case True
      then have "out = ?cats'"
        using Cons.prems(3) r False by (simp add: Let_def)
      moreover have "length ?cats' \<le> MAX_CATEGORIES"
        using Cons.prems(1) by simp
      ultimately show ?thesis using ne by blast
    next
      case c: False
      then have "search_loop e f (Suc n) ids ?cats' = Inr out"
        using Cons.prems(3) r False by (simp add: Let_def)
      moreover have "length ?cats' < MAX_CATEGORIES" using c by simp
      ultimately show ?thesis
        using Cons.IH ne by blast
    qed
  qed
qed

lemma take_length_append: "take (length xs) (xs @ ys) = xs"
  by simp

lemma search_loop_all_fetched:
  "length rs = length ids \<Longrightarrow>
   \<forall>i < length ids. searchClues e f (n + i) (ids ! i) = Inr (rs ! i) \<Longrightarrow>
   length cats < MAX_CATEGORIES \<Longrightarrow>
   search_loop e f n ids cats =
     Inr (take MAX_CATEGORIES
            (cats @ map category_of (filter (\<lambda>u. u \<noteq> []) (map normalizeClues rs))))"
proof (induction ids arbitrary: n cats rs)
  case Nil
  then show ?case by simp
next
  case (Cons categoryId ids)
  then obtain r rs' where rs: "rs = r # rs'" and len: "length rs' = length ids"
    by (cases rs) auto
  have r: "searchClues e f n categoryId = Inr r"
    using Cons.prems(2) [rule_format, of 0] by (simp add: rs)
  have rest: "\<forall>i < length ids. searchClues e f (Suc n + i) (ids ! i) = Inr (rs' ! i)"
  proof (intro allI impI)
    fix i assume "i < length ids"
    then show "searchClues e f (Suc n + i) (ids ! i) = Inr (rs' ! i)"
      using Cons.prems(2) [rule_format, of "Suc i"] by (simp add: rs)
  qed
  let ?u = "normalizeClues r"
  let ?tail = "map category_of (filter (\<lambda>u. u \<noteq> []) (map normalizeClues rs'))"
  show ?case
  proof (cases "?u = []")
    case True
    then show ?thesis
      using r Cons.IH [OF len rest Cons.prems(3)] by (simp add: rs)
  next
    case False
    let ?cats' = "cats @ [category_of ?u]"
    show ?thesis
    proof (cases "length ?cats' \<ge> MAX_CATEGORIES")
      case True
      then have "length ?cats' = MAX_CATEGORIES"
        using Cons.prems(3) by simp
      then have "take MAX_CATEGORIES (?cats' @ ?tail) = ?cats'"
        by (metis take_length_append)
      then show ?thesis
        using r False True by (simp add: rs Let_def)
    next
      case c: False
      then have "length ?cats' < MAX_CATEGORIES" by simp
      from Cons.IH [OF len rest this] show ?thesis
        using r False c by (simp add: rs Let_def)
    qed
  qed
qed

lemma search_loop_append:
  "search_loop e f n pre cats = Inr cats' \<Longrightarrow> length cats' < MAX_CATEGORIES \<Longrightarrow>
   search_loop e f n (pre @ rest) cats = search_loop e f (n + length pre) rest cats'"
proof (induction pre arbitrary: n cats)
  case Nil
  then show ?case by simp
next
  case (Cons categoryId pre)
  from Cons.prems(1) obtain fetched where r: "searchClues e f n categoryId = Inr fetched"
    by (cases "searchClues e f n categoryId") auto
  let ?u = "normalizeClues fetched"
  show ?case
  proof (cases "?u = []")
    case True
    then have "search_loop e f (Suc n) pre cats = Inr cats'"
      using Cons.prems(1) r by simp
    from Cons.IH [OF this Cons.prems(2)] show ?thesis
      using r True by simp
  next
    case False
    let ?c = "cats @ [category_of ?u]"
    have c: "\<not> length ?c \<ge> MAX_CATEGORIES"
    proof
      assume "length ?c \<ge> MAX_CATEGORIES"
      then have "cats' = ?c"
        using Cons.prems(1) r False by (simp add: Let_def)
      then show False
        using Cons.prems(2) \<open>length ?c \<ge> MAX_CATEGORIES\<close> by simp
    qed
    then have "search_loop e f (Suc n) pre ?c = Inr cats'"
      using Cons.prems(1) r False by (simp add: Let_def)
    from Cons.IH [OF this Cons.prems(2)] show ?thesis
      using r False c by (simp add: Let_def)
  qed
qed


lemma matchedIds_example_page: "matchedIds example_page = [lit ''1'', lit ''22'', lit ''3'']"
  by (simp add: matchedIds_def example_page_def lit_def digit_def)


lemma onSearch_loop_failed:
  "fetch_search e (searchText s) = Inr html \<Longrightarrow>
   search_loop e (filters s) 0 (matchedIds html) [] = Inl err \<Longrightarrow>
   onSearch e s = (Inl err, s\<lparr>searching := True\<rparr>)"
  by (simp add: onSearch_def)

lemma onSearch_loop_done:
  "fetch_search e (searchText s) = Inr html \<Longrightarrow>
   search_loop e (filters s) 0 (matchedIds html) [] = Inr cats \<Longrightarrow>
   onSearch e s = (Inr (), s\<lparr>searching := False, categories := cats\<rparr>)"
  by (simp add: onSearch_def)

lemma onSearch_Inr_D:
  assumes "onSearch e s = (Inr (), s')"
  shows "\<exists>html. fetch_search e (searchText s) = Inr html
           \<and> search_loop e (filters s) 0 (matchedIds html) [] = Inr (categories s')"
proof (cases "fetch_search e (searchText s)")
  case (Inl err)
  then show ?thesis using assms by (simp add: onSearch_def)
next
  case (Inr html)
  then show ?thesis
    using assms
    by (cases "search_loop e (filters s) 0 (matchedIds html) []") (auto simp: onSearch_def)
qed

text \<open>
  C1. A search that completes leaves at most 12 category records, each with at least one
  clue. When every clues request is answered, the records are those of the first 12
  identifiers, in page order, whose deduplicated clue list is not empty: an identifier
  without clues is left out and does not count towards the 12.
\<close>

theorem onSearch_categories_capped_nonempty:
  "(onSearch e s = (Inr (), s')
      \<longrightarrow> length (categories s') \<le> 12 \<and> (\<forall>c \<in> set (categories s'). clues c \<noteq> []))
   \<and> (fetch_search e (searchText s) = Inr html \<and> length rs = length (matchedIds html)
        \<and> (\<forall>i < length (matchedIds html).
              searchClues e (filters s) i (matchedIds html ! i) = Inr (rs ! i))
      \<longrightarrow> onSearch e s =
            (Inr (), s\<lparr>searching := False,
                       categories := take 12 (map category_of
                                        (filter (\<lambda>u. u \<noteq> []) (map normalizeClues rs)))\<rparr>))"
proof -
  have capped: "onSearch e s = (Inr (), s')
      \<longrightarrow> length (categories s') \<le> 12 \<and> (\<forall>c \<in> set (categories s'). clues c \<noteq> [])"
  proof
    assume "onSearch e s = (Inr (), s')"
    then obtain html where
      "search_loop e (filters s) 0 (matchedIds html) [] = Inr (categories s')"
      using onSearch_Inr_D by blast
    then have "length (categories s') \<le> MAX_CATEGORIES
        \<and> (\<forall>c \<in> set (categories s'). clues c \<noteq> [])"
      using search_loop_capped [of "[]" e "filters s" 0 "matchedIds html" "categories s'"]
      by (simp add: MAX_CATEGORIES_def)
    then show "length (categories s') \<le> 12 \<and> (\<forall>c \<in> set (categories s'). clues c \<noteq> [])"
      by (simp add: MAX_CATEGORIES_def)
  qed
  have first12: "fetch_search e (searchText s) = Inr html \<and> length rs = length (matchedIds html)
        \<and> (\<forall>i < length (matchedIds html).
              searchClues e (filters s) i (matchedIds html ! i) = Inr (rs ! i))
      \<longrightarrow> onSearch e s =
            (Inr (), s\<lparr>searching := False,
                       categories := take 12 (map category_of
                                        (filter (\<lambda>u. u \<noteq> []) (map normalizeClues rs)))\<rparr>)"
  proof
    assume h: "fetch_search e (searchText s) = Inr html \<and> length rs = length (matchedIds html)
        \<and> (\<forall>i < length (matchedIds html).
              searchClues e (filters s) i (matchedIds html ! i) = Inr (rs ! i))"
    then have "search_loop e (filters s) 0 (matchedIds html) [] =
        Inr (take MAX_CATEGORIES
              ([] @ map category_of (filter (\<lambda>u. u \<noteq> []) (map normalizeClues rs))))"
      using search_loop_all_fetched [of rs "matchedIds html" e "filters s" 0 "[]"]
      by (simp add: MAX_CATEGORIES_def)
    then show "onSearch e s =
            (Inr (), s\<lparr>searching := False,
                       categories := take 12 (map category_of
                                        (filter (\<lambda>u. u \<noteq> []) (map normalizeClues rs)))\<rparr>)"
      using h onSearch_loop_done [of e s html] by (simp add: MAX_CATEGORIES_def)
  qed
  show ?thesis
    using capped first12 by (rule conjI)
qed

lemma normalizeClues_Nil: "normalizeClues [] = []"
  by (simp add: normalizeClues_def uniqueClues_def Array_sort_def)

lemma normalizeClues_example:
  "normalizeClues [example_clue 7 ''Q7'' ''ox'' (Some 200), example_clue 8 ''Q8'' ''cat'' None]
     = [example_clue 8 ''Q8'' ''cat'' (Some 0), example_clue 7 ''Q7'' ''ox'' (Some 200)]"
  by (simp add: normalizeClues_def uniqueClues_def Array_sort_def default_value_def
      compare_value_def ToNumber_def example_clue_def lit_def)

text \<open>
  A witness for C1: three identifiers, the first without clues; two records result.
\<close>

theorem onSearch_categories_capped_nonempty_witness:
  "onSearch working_env example_state =
     (Inr (), example_state
        \<lparr>searching := False,
         categories :=
           [category_of [example_clue 8 ''Q8'' ''cat'' (Some 0), example_clue 7 ''Q7'' ''ox'' (Some 200)],
            category_of [example_clue 8 ''Q8'' ''cat'' (Some 0), example_clue 7 ''Q7'' ''ox'' (Some 200)]]\<rparr>)
   \<and> length (categories (snd (onSearch working_env example_state))) \<le> 12"
proof -
  let ?two = "[example_clue 7 ''Q7'' ''ox'' (Some 200), example_clue 8 ''Q8'' ''cat'' None]"
  let ?rs = "[[], ?two, ?two]"
  have h: "fetch_search working_env (searchText example_state) = Inr example_page
      \<and> length ?rs = length (matchedIds example_page)
      \<and> (\<forall>i < length (matchedIds example_page).
            searchClues working_env (filters example_state) i (matchedIds example_page ! i)
              = Inr (?rs ! i))"
    by (simp add: matchedIds_example_page working_env_def searchClues_def All_less_Suc
        numeral_3_eq_3 less_Suc_eq)
  have r: "onSearch working_env example_state =
     (Inr (), example_state
        \<lparr>searching := False,
         categories := take 12 (map category_of
                                  (filter (\<lambda>u. u \<noteq> []) (map normalizeClues ?rs)))\<rparr>)"
    using onSearch_categories_capped_nonempty [of working_env example_state _ example_page ?rs] h
    by blast
  have "length (categories (snd (onSearch working_env example_state))) \<le> 12"
    using onSearch_categories_capped_nonempty
      [of working_env example_state "snd (onSearch working_env example_state)"] r
    by simp
  then show ?thesis
    using r by (simp add: normalizeClues_Nil normalizeClues_example)
qed

text \<open>
  C5 as stated fails: there is no handler around the clues request, so a rejected request
  ends the loop. Here the request for the second of three identifiers is rejected; the
  request for the third would be answered, yet the loop ends with the error.
\<close>

theorem failed_request_aborts_search_counterexample:
  "searchClues failing_env example_filters 1 (lit ''22'') = Inl RetrievalError
   \<and> searchClues failing_env example_filters 2 (lit ''3'')
        = Inr [example_clue 7 ''Q7'' ''ox'' (Some 100)]
   \<and> search_loop failing_env example_filters 0 [lit ''1'', lit ''22'', lit ''3''] []
        = Inl RetrievalError"
  by (simp add: searchClues_def failing_env_def normalizeClues_def uniqueClues_def
      Array_sort_def default_value_def MAX_CATEGORIES_def category_of_def)

text \<open>
  C5, amended. When the loop has gone through the identifiers \<open>pre\<close> with fewer than 12
  records and the clues request for the next identifier is rejected, the loop ends with
  that error whatever identifiers follow, and the search as a whole ends with it: the
  categories of the state stay as they were.
\<close>

theorem search_loop_aborts_on_failed_request:
  "(search_loop e f n pre cats = Inr cats' \<and> length cats' < MAX_CATEGORIES
      \<and> searchClues e f (n + length pre) categoryId = Inl err
     \<longrightarrow> search_loop e f n (pre @ categoryId # post) cats = Inl err)
   \<and> (fetch_search e (searchText s) = Inr html \<and> matchedIds html = pre @ categoryId # post
      \<and> search_loop e (filters s) 0 pre [] = Inr cats' \<and> length cats' < MAX_CATEGORIES
      \<and> searchClues e (filters s) (length pre) categoryId = Inl err
     \<longrightarrow> onSearch e s = (Inl err, s\<lparr>searching := True\<rparr>))"
proof -
  have loop: "search_loop e f n pre cats = Inr cats' \<and> length cats' < MAX_CATEGORIES
      \<and> searchClues e f (n + length pre) categoryId = Inl err
     \<longrightarrow> search_loop e f n (pre @ categoryId # post) cats = Inl err" for f n cats
  proof
    assume h: "search_loop e f n pre cats = Inr cats' \<and> length cats' < MAX_CATEGORIES
      \<and> searchClues e f (n + length pre) categoryId = Inl err"
    then have "search_loop e f n (pre @ categoryId # post) cats =
        search_loop e f (n + length pre) (categoryId # post) cats'"
      using search_loop_append by blast
    then show "search_loop e f n (pre @ categoryId # post) cats = Inl err"
      using h by simp
  qed
  have whole: "fetch_search e (searchText s) = Inr html \<and> matchedIds html = pre @ categoryId # post
      \<and> search_loop e (filters s) 0 pre [] = Inr cats' \<and> length cats' < MAX_CATEGORIES
      \<and> searchClues e (filters s) (length pre) categoryId = Inl err
     \<longrightarrow> onSearch e s = (Inl err, s\<lparr>searching := True\<rparr>)"
  proof
    assume h: "fetch_search e (searchText s) = Inr html \<and> matchedIds html = pre @ categoryId # post
      \<and> search_loop e (filters s) 0 pre [] = Inr cats' \<and> length cats' < MAX_CATEGORIES
      \<and> searchClues e (filters s) (length pre) categoryId = Inl err"
    then have "search_loop e (filters s) 0 (matchedIds html) [] = Inl err"
      using loop [of "filters s" 0 "[]"] by simp
    then show "onSearch e s = (Inl err, s\<lparr>searching := True\<rparr>)"
      using h onSearch_loop_failed by blast
  qed
  show ?thesis
    using loop whole by (rule conjI)
qed

lemma search_loop_failing_env_first:
  "search_loop failing_env example_filters 0 [lit ''1''] []
     = Inr [category_of [example_clue 7 ''Q7'' ''ox'' (Some 100)]]"
  by (simp add: searchClues_def failing_env_def normalizeClues_def uniqueClues_def
      Array_sort_def default_value_def MAX_CATEGORIES_def example_clue_def)

text \<open>A witness for C5: the rejected request is the second of three.\<close>

theorem search_loop_aborts_on_failed_request_witness:
  "search_loop failing_env example_filters 0 [lit ''1''] []
     = Inr [category_of [example_clue 7 ''Q7'' ''ox'' (Some 100)]]
   \<and> length [category_of [example_clue 7 ''Q7'' ''ox'' (Some 100)]] < MAX_CATEGORIES
   \<and> searchClues failing_env example_filters (0 + length [lit ''1'']) (lit ''22'') = Inl RetrievalError
   \<and> fetch_search failing_env (searchText example_state) = Inr example_page
   \<and> matchedIds example_page = [lit ''1''] @ lit ''22'' # [lit ''3'']
   \<and> search_loop failing_env example_filters 0 ([lit ''1''] @ lit ''22'' # [lit ''3'']) []
       = Inl RetrievalError
   \<and> onSearch failing_env example_state = (Inl RetrievalError, example_state\<lparr>searching := True\<rparr>)"
proof -
  let ?cats = "[category_of [example_clue 7 ''Q7'' ''ox'' (Some 100)]]"
  have h1: "search_loop failing_env example_filters 0 [lit ''1''] [] = Inr ?cats"
    by (rule search_loop_failing_env_first)
  have h2: "length ?cats < MAX_CATEGORIES"
    by (simp add: MAX_CATEGORIES_def)
  have h3: "searchClues failing_env example_filters (0 + length [lit ''1'']) (lit ''22'')
      = Inl RetrievalError"
    by (simp add: searchClues_def failing_env_def)
  have h4: "fetch_search failing_env (searchText example_state) = Inr example_page"
    by (simp add: failing_env_def)
  have h5: "matchedIds example_page = [lit ''1''] @ lit ''22'' # [lit ''3'']"
    by (simp add: matchedIds_example_page)
  have f: "filters example_state = example_filters"
    by (simp add: example_state_def)
  note inst = search_loop_aborts_on_failed_request
    [of failing_env example_filters 0 "[lit ''1'']" "[]" ?cats "lit ''22''" RetrievalError
      "[lit ''3'']" example_state example_page]
  have c1: "search_loop failing_env example_filters 0 ([lit ''1''] @ lit ''22'' # [lit ''3'']) []
       = Inl RetrievalError"
    using inst h1 h2 h3 by blast
  have c2: "onSearch failing_env example_state
      = (Inl RetrievalError, example_state\<lparr>searching := True\<rparr>)"
    using inst h1 h2 h3 h4 h5 f by simp
  show ?thesis
    using h1 h2 h3 h4 h5 c1 c2 by blast
qed




subsection \<open>The saved state\<close>

lemma spread_INITIAL_STATE: "Object (spread INITIAL_STATE) = INITIAL_STATE"
  by (simp add: INITIAL_STATE_def)

text \<open>
  C7 as stated fails for a malformed snapshot: \<^verbatim>\<open>JSON.parse\<close> is called with no handler
  and its result is not validated. A stored string that is no JSON text makes the
  constructor throw, and a stored JSON text of another shape (here the empty object)
  becomes the state as it is.
\<close>

theorem malformed_snapshot_counterexample:
  "App_constructor (Some (NotJSON (lit ''{searchText:''))) = Inl SyntaxError
   \<and> App_constructor (Some (JSONText (Object []))) = Inr (Object [])
   \<and> Object [] \<noteq> INITIAL_STATE"
  by (simp add: App_constructor_def INITIAL_STATE_def)

text \<open>
  C7, amended. With no snapshot stored the application starts in the fixed initial state.
  A stored string that is no JSON text makes the constructor throw the SyntaxError of
  \<^verbatim>\<open>JSON.parse\<close>. A stored JSON text gives the fixed initial state when its value is
  falsy, and otherwise the own properties of its value as the state, unvalidated.
\<close>

theorem App_constructor_snapshot:
  "App_constructor None = Inr INITIAL_STATE
   \<and> App_constructor (Some (NotJSON text)) = Inl SyntaxError
   \<and> App_constructor (Some (JSONText v)) =
        Inr (if truthy v then Object (spread v) else INITIAL_STATE)"
  by (simp add: App_constructor_def spread_INITIAL_STATE)

text \<open>
  A witness for C7: a stored "null" gives the initial state, a stored array becomes a
  state with the property "0".
\<close>

theorem App_constructor_snapshot_witness:
  "App_constructor (Some (JSONText Null)) = Inr INITIAL_STATE
   \<and> App_constructor (Some (JSONText (Array [Number 5]))) = Inr (Object [(lit ''0'', Number 5)])"
  using App_constructor_snapshot [of _ Null] App_constructor_snapshot [of _ "Array [Number 5]"]
  by (simp add: lit_def)


subsection \<open>The URL of the clues request\<close>

lemma split_on_not_Nil: "split_on sep s \<noteq> []"
  by (induction s) (auto split: list.splits)

lemma split_on_no_sep: "sep \<notin> set a \<Longrightarrow> split_on sep a = [a]"
  by (induction a) auto

lemma split_on_append: "sep \<notin> set a \<Longrightarrow> split_on sep (a @ sep # b) = a # split_on sep b"
  by (induction a) auto

lemma split_on_four:
  assumes "sep \<notin> set a" "sep \<notin> set b" "sep \<notin> set c" "sep \<notin> set d"
  shows "split_on sep (a @ sep # b @ sep # c @ sep # d) = [a, b, c, d]"
  using assms by (simp add: split_on_append split_on_no_sep)

lemma constructedUrl_shape:
  "constructedUrl f now categoryId =
     lit ''http://jservice.io/api/clues?max_date='' @ or_else (max_date f) now
     @ lit ''&min_date='' @ or_else (min_date f) epoch_iso
     @ lit ''&category='' @ categoryId @ lit ''&''
     @ (if filter_value f = lit ''any'' then [] else lit ''value='' @ filter_value f)"
  by (simp add: constructedUrl_def Let_def lit_def)

lemma takeWhile_all: "x \<notin> set s \<Longrightarrow> takeWhile (\<lambda>c. c \<noteq> x) s = s"
  by (induction s) auto

lemma url_query_constructedUrl:
  assumes "0x23 \<notin> set rest"
  shows "url_query (lit ''http://jservice.io/api/clues?'' @ rest) = rest"
proof -
  have "0x23 \<notin> set (lit ''http://jservice.io/api/clues?'' @ rest)"
    using assms by (simp add: lit_def)
  then have "takeWhile (\<lambda>c. c \<noteq> 0x23) (lit ''http://jservice.io/api/clues?'' @ rest)
      = lit ''http://jservice.io/api/clues?'' @ rest"
    by (rule takeWhile_all)
  then show ?thesis
    by (simp add: url_query_def lit_def)
qed

lemma plain_text_or_else:
  "plain_text dflt \<Longrightarrow> \<forall>s. d = Some s \<longrightarrow> plain_text s \<Longrightarrow> plain_text (or_else d dflt)"
  by (cases d) (simp_all add: or_else_def)

lemma plain_text_epoch_iso: "plain_text epoch_iso"
  by (simp add: plain_text_def epoch_iso_def lit_def)

lemma query_params_constructedUrl:
  assumes "plain_text a" "plain_text b" "plain_text c" "plain_text v"
  shows "query_params
       (lit ''http://jservice.io/api/clues?max_date='' @ a @ lit ''&min_date='' @ b
        @ lit ''&category='' @ c @ lit ''&'' @ (if any then [] else lit ''value='' @ v))
     = [lit ''max_date='' @ a, lit ''min_date='' @ b, lit ''category='' @ c,
        (if any then [] else lit ''value='' @ v)]"
proof -
  let ?p1 = "lit ''max_date='' @ a" and ?p2 = "lit ''min_date='' @ b"
  let ?p3 = "lit ''category='' @ c" and ?p4 = "(if any then [] else lit ''value='' @ v)"
  let ?rest = "?p1 @ 0x26 # ?p2 @ 0x26 # ?p3 @ 0x26 # ?p4"
  have u: "lit ''http://jservice.io/api/clues?max_date='' @ a @ lit ''&min_date='' @ b
        @ lit ''&category='' @ c @ lit ''&'' @ ?p4
      = lit ''http://jservice.io/api/clues?'' @ ?rest"
    by (simp add: lit_def)
  have amp: "0x26 \<notin> set ?p1" "0x26 \<notin> set ?p2" "0x26 \<notin> set ?p3" "0x26 \<notin> set ?p4"
    using assms by (simp_all add: plain_text_def lit_def)
  have "0x23 \<notin> set ?rest"
    using assms by (simp add: plain_text_def lit_def)
  then have "url_query (lit ''http://jservice.io/api/clues?'' @ ?rest) = ?rest"
    by (rule url_query_constructedUrl)
  then show ?thesis
    unfolding u query_params_def using split_on_four [OF amp] by simp
qed

lemma param_names:
  "param_name (lit ''max_date='' @ a) = lit ''max_date''"
  "param_name (lit ''min_date='' @ b) = lit ''min_date''"
  "param_name (lit ''category='' @ c) = lit ''category''"
  "param_name (lit ''value='' @ v) = lit ''value''"
  "param_name [] = []"
  by (simp_all add: param_name_def lit_def)

lemma lit_value_distinct:
  "lit ''value'' \<noteq> lit ''max_date''" "lit ''value'' \<noteq> lit ''min_date''"
  "lit ''value'' \<noteq> lit ''category''" "lit ''value'' \<noteq> []"
  by (simp_all add: lit_def)

text \<open>
  C8 as stated fails: identifier, dates and value are put into the URL as they are. With
  the filter "any" and a maximum date that carries an ampersand, the query requested has a
  parameter value=200; with a maximum date that carries a number sign the query ends
  there, and has no min_date parameter.
\<close>

theorem unencoded_text_changes_query_counterexample:
  "filter_value injected_filters = lit ''any''
   \<and> searchClues echo_env injected_filters 0 (lit ''1'')
       = Inr [echo_clue (lit ''http://jservice.io/api/clues?max_date=2020-01-01&value=200&min_date=1970-01-01T00:00:00.000Z&category=1&'')]
   \<and> query_params (lit ''http://jservice.io/api/clues?max_date=2020-01-01&value=200&min_date=1970-01-01T00:00:00.000Z&category=1&'')
       = [lit ''max_date=2020-01-01'', lit ''value=200'',
          lit ''min_date=1970-01-01T00:00:00.000Z'', lit ''category=1'', []]
   \<and> searchClues echo_env fragment_filters 0 (lit ''1'')
       = Inr [echo_clue (lit ''http://jservice.io/api/clues?max_date=2020-01-01#top&min_date=1970-01-01T00:00:00.000Z&category=1&'')]
   \<and> query_params (lit ''http://jservice.io/api/clues?max_date=2020-01-01#top&min_date=1970-01-01T00:00:00.000Z&category=1&'')
       = [lit ''max_date=2020-01-01'']"
  by (simp add: searchClues_def echo_env_def constructedUrl_def injected_filters_def
      fragment_filters_def or_else_def epoch_iso_def query_params_def url_query_def lit_def)

text \<open>
  C8, amended. \<open>searchClues\<close> requests the URL that ends behind the category with an
  ampersand and, unless the filter is "any", the text "value=" and the filter's value; the
  maximum and minimum date are the filter's, or the current time and the epoch when the
  filter has none or an empty one. When identifier, dates, value and current time carry
  neither ampersand nor number sign, the parameters of the query are max_date, min_date,
  category and one more: the empty text when the filter is "any", so that no parameter is
  named value, and value=<the value> otherwise.
\<close>

theorem searchClues_requests_query:
  "searchClues e f n categoryId = fetch_clues e n (constructedUrl f (clock e n) categoryId)
   \<and> constructedUrl f (clock e n) categoryId =
       lit ''http://jservice.io/api/clues?max_date='' @ or_else (max_date f) (clock e n)
       @ lit ''&min_date='' @ or_else (min_date f) epoch_iso
       @ lit ''&category='' @ categoryId @ lit ''&''
       @ (if filter_value f = lit ''any'' then [] else lit ''value='' @ filter_value f)
   \<and> (max_date f = None \<or> max_date f = Some []
        \<longrightarrow> or_else (max_date f) (clock e n) = clock e n)
   \<and> (min_date f = None \<or> min_date f = Some []
        \<longrightarrow> or_else (min_date f) epoch_iso = epoch_iso)
   \<and> (plain_text categoryId \<and> plain_text (clock e n) \<and> plain_text (filter_value f)
        \<and> (\<forall>d. max_date f = Some d \<longrightarrow> plain_text d)
        \<and> (\<forall>d. min_date f = Some d \<longrightarrow> plain_text d)
      \<longrightarrow> query_params (constructedUrl f (clock e n) categoryId) =
            [lit ''max_date='' @ or_else (max_date f) (clock e n),
             lit ''min_date='' @ or_else (min_date f) epoch_iso,
             lit ''category='' @ categoryId,
             (if filter_value f = lit ''any'' then [] else lit ''value='' @ filter_value f)]
          \<and> map param_name (query_params (constructedUrl f (clock e n) categoryId)) =
            [lit ''max_date'', lit ''min_date'', lit ''category'',
             (if filter_value f = lit ''any'' then [] else lit ''value'')]
          \<and> (filter_value f = lit ''any''
              \<longrightarrow> lit ''value''
                    \<notin> set (map param_name (query_params (constructedUrl f (clock e n) categoryId))))
          \<and> (filter_value f \<noteq> lit ''any''
              \<longrightarrow> lit ''value='' @ filter_value f
                    \<in> set (query_params (constructedUrl f (clock e n) categoryId))))"
proof -
  let ?now = "clock e n"
  let ?u = "constructedUrl f ?now categoryId"
  let ?ps = "[lit ''max_date='' @ or_else (max_date f) ?now,
             lit ''min_date='' @ or_else (min_date f) epoch_iso,
             lit ''category='' @ categoryId,
             (if filter_value f = lit ''any'' then [] else lit ''value='' @ filter_value f)]"
  have req: "searchClues e f n categoryId = fetch_clues e n ?u"
    by (simp add: searchClues_def)
  have shape: "?u =
       lit ''http://jservice.io/api/clues?max_date='' @ or_else (max_date f) ?now
       @ lit ''&min_date='' @ or_else (min_date f) epoch_iso
       @ lit ''&category='' @ categoryId @ lit ''&''
       @ (if filter_value f = lit ''any'' then [] else lit ''value='' @ filter_value f)"
    by (rule constructedUrl_shape)
  have dmax: "max_date f = None \<or> max_date f = Some [] \<longrightarrow> or_else (max_date f) ?now = ?now"
    by (auto simp: or_else_def)
  have dmin: "min_date f = None \<or> min_date f = Some []
      \<longrightarrow> or_else (min_date f) epoch_iso = epoch_iso"
    by (auto simp: or_else_def)
  have params: "plain_text categoryId \<and> plain_text ?now \<and> plain_text (filter_value f)
        \<and> (\<forall>d. max_date f = Some d \<longrightarrow> plain_text d)
        \<and> (\<forall>d. min_date f = Some d \<longrightarrow> plain_text d)
      \<longrightarrow> query_params ?u = ?ps
          \<and> map param_name (query_params ?u) =
            [lit ''max_date'', lit ''min_date'', lit ''category'',
             (if filter_value f = lit ''any'' then [] else lit ''value'')]
          \<and> (filter_value f = lit ''any''
              \<longrightarrow> lit ''value'' \<notin> set (map param_name (query_params ?u)))
          \<and> (filter_value f \<noteq> lit ''any''
              \<longrightarrow> lit ''value='' @ filter_value f \<in> set (query_params ?u))"
  proof
    assume h: "plain_text categoryId \<and> plain_text ?now \<and> plain_text (filter_value f)
        \<and> (\<forall>d. max_date f = Some d \<longrightarrow> plain_text d)
        \<and> (\<forall>d. min_date f = Some d \<longrightarrow> plain_text d)"
    have a: "plain_text (or_else (max_date f) ?now)"
      using h plain_text_or_else by blast
    have b: "plain_text (or_else (min_date f) epoch_iso)"
      using h plain_text_or_else plain_text_epoch_iso by blast
    have q: "query_params ?u = ?ps"
      unfolding shape using a b h by (simp add: query_params_constructedUrl)
    have names: "map param_name (query_params ?u) =
            [lit ''max_date'', lit ''min_date'', lit ''category'',
             (if filter_value f = lit ''any'' then [] else lit ''value'')]"
      unfolding q by (simp add: param_names)
    have none: "filter_value f = lit ''any''
        \<longrightarrow> lit ''value'' \<notin> set (map param_name (query_params ?u))"
      unfolding names using lit_value_distinct by simp
    have some: "filter_value f \<noteq> lit ''any''
        \<longrightarrow> lit ''value='' @ filter_value f \<in> set (query_params ?u)"
      unfolding q by simp
    show "query_params ?u = ?ps
          \<and> map param_name (query_params ?u) =
            [lit ''max_date'', lit ''min_date'', lit ''category'',
             (if filter_value f = lit ''any'' then [] else lit ''value'')]
          \<and> (filter_value f = lit ''any''
              \<longrightarrow> lit ''value'' \<notin> set (map param_name (query_params ?u)))
          \<and> (filter_value f \<noteq> lit ''any''
              \<longrightarrow> lit ''value='' @ filter_value f \<in> set (query_params ?u))"
      using q names none some by blast
  qed
  show ?thesis
    using req shape dmax dmin params by blast
qed

text \<open>
  A witness for C8: the URL requested and its parameters for the filter "any" without
  dates, and for the value 200 with a maximum date.
\<close>

theorem searchClues_requests_query_witness:
  "searchClues echo_env example_filters 0 (lit ''42'')
     = Inr [echo_clue (lit ''http://jservice.io/api/clues?max_date=2020-02-02T10:00:00.000Z&min_date=1970-01-01T00:00:00.000Z&category=42&'')]
   \<and> query_params (constructedUrl example_filters (clock echo_env 0) (lit ''42''))
     = [lit ''max_date=2020-02-02T10:00:00.000Z'', lit ''min_date=1970-01-01T00:00:00.000Z'',
        lit ''category=42'', []]
   \<and> searchClues echo_env fixed_filters 0 (lit ''42'')
     = Inr [echo_clue (lit ''http://jservice.io/api/clues?max_date=2019-12-31&min_date=1970-01-01T00:00:00.000Z&category=42&value=200'')]
   \<and> query_params (constructedUrl fixed_filters (clock echo_env 0) (lit ''42''))
     = [lit ''max_date=2019-12-31'', lit ''min_date=1970-01-01T00:00:00.000Z'',
        lit ''category=42'', lit ''value=200'']"
proof -
  have now: "clock echo_env 0 = lit ''2020-02-02T10:00:00.000Z''"
    by (simp add: echo_env_def)
  have h1: "plain_text (lit ''42'') \<and> plain_text (clock echo_env 0)
        \<and> plain_text (filter_value example_filters)
        \<and> (\<forall>d. max_date example_filters = Some d \<longrightarrow> plain_text d)
        \<and> (\<forall>d. min_date example_filters = Some d \<longrightarrow> plain_text d)"
    by (simp add: now plain_text_def example_filters_def lit_def)
  have h2: "plain_text (lit ''42'') \<and> plain_text (clock echo_env 0)
        \<and> plain_text (filter_value fixed_filters)
        \<and> (\<forall>d. max_date fixed_filters = Some d \<longrightarrow> plain_text d)
        \<and> (\<forall>d. min_date fixed_filters = Some d \<longrightarrow> plain_text d)"
    by (simp add: now plain_text_def fixed_filters_def lit_def)
  note any = searchClues_requests_query [of echo_env example_filters 0 "lit ''42''"]
  note fixed = searchClues_requests_query [of echo_env fixed_filters 0 "lit ''42''"]
  have r1: "searchClues echo_env example_filters 0 (lit ''42'')
      = fetch_clues echo_env 0
         (lit ''http://jservice.io/api/clues?max_date=''
          @ or_else (max_date example_filters) (clock echo_env 0)
          @ lit ''&min_date='' @ or_else (min_date example_filters) epoch_iso
          @ lit ''&category='' @ lit ''42'' @ lit ''&''
          @ (if filter_value example_filters = lit ''any'' then []
             else lit ''value='' @ filter_value example_filters))"
    using any by simp
  have q1: "query_params (constructedUrl example_filters (clock echo_env 0) (lit ''42'')) =
            [lit ''max_date='' @ or_else (max_date example_filters) (clock echo_env 0),
             lit ''min_date='' @ or_else (min_date example_filters) epoch_iso,
             lit ''category='' @ lit ''42'',
             (if filter_value example_filters = lit ''any'' then []
              else lit ''value='' @ filter_value example_filters)]"
    using any h1 by blast
  have r2: "searchClues echo_env fixed_filters 0 (lit ''42'')
      = fetch_clues echo_env 0
         (lit ''http://jservice.io/api/clues?max_date=''
          @ or_else (max_date fixed_filters) (clock echo_env 0)
          @ lit ''&min_date='' @ or_else (min_date fixed_filters) epoch_iso
          @ lit ''&category='' @ lit ''42'' @ lit ''&''
          @ (if filter_value fixed_filters = lit ''any'' then []
             else lit ''value='' @ filter_value fixed_filters))"
    using fixed by simp
  have q2: "query_params (constructedUrl fixed_filters (clock echo_env 0) (lit ''42'')) =
            [lit ''max_date='' @ or_else (max_date fixed_filters) (clock echo_env 0),
             lit ''min_date='' @ or_else (min_date fixed_filters) epoch_iso,
             lit ''category='' @ lit ''42'',
             (if filter_value fixed_filters = lit ''any'' then []
              else lit ''value='' @ filter_value fixed_filters)]"
    using fixed h2 by blast
  show ?thesis
    unfolding r1 q1 r2 q2
    by (simp add: now echo_env_def example_filters_def fixed_filters_def or_else_def
        epoch_iso_def lit_def)
qed

text \<open>
  The identifiers that the search passes to \<open>searchClues\<close> are non-empty digit strings,
  and so carry neither ampersand nor number sign.
\<close>

lemma length_lit_prefix: "length (lit ''popular/'') = 8"
  by (simp add: lit_def)

lemma matches_Cons:
  "matches (c # s) =
     (if prefix (lit ''popular/'') (c # s) \<and> takeWhile digit (drop 8 (c # s)) \<noteq> []
      then (lit ''popular/'' @ takeWhile digit (drop 8 (c # s)))
           # matches (dropWhile digit (drop 8 (c # s)))
      else matches s)"
  by (simp only: matches.simps Let_def)

lemma matches_digits:
  "m \<in> set (matches html) \<Longrightarrow> drop 8 m \<noteq> [] \<and> list_all digit (drop 8 m)"
proof (induction html rule: matches.induct)
  case 1
  then show ?case by (simp only: matches.simps set_simps empty_iff)
next
  case (2 c s)
  let ?ds = "takeWhile digit (drop 8 (c # s))"
  show ?case
  proof (cases "prefix (lit ''popular/'') (c # s) \<and> ?ds \<noteq> []")
    case True
    have "matches (c # s) = (lit ''popular/'' @ ?ds) # matches (dropWhile digit (drop 8 (c # s)))"
      by (subst matches_Cons) (rule if_P [OF True])
    then have "m = lit ''popular/'' @ ?ds \<or> m \<in> set (matches (dropWhile digit (drop 8 (c # s))))"
      using "2.prems" by (simp only: set_simps insert_iff)
    then show ?thesis
    proof
      assume "m = lit ''popular/'' @ ?ds"
      then have "drop 8 m = ?ds"
        using length_lit_prefix by (metis append_eq_conv_conj)
      moreover have "list_all digit ?ds"
        by (simp only: list_all_iff) (blast dest: set_takeWhileD)
      ultimately show ?thesis
        using True by metis
    next
      assume "m \<in> set (matches (dropWhile digit (drop 8 (c # s))))"
      then show ?thesis
        using "2.IH"(1) [OF refl True] by metis
    qed
  next
    case False
    have "matches (c # s) = matches s"
      by (subst matches_Cons) (rule if_not_P [OF False])
    then have "m \<in> set (matches s)"
      using "2.prems" by (simp only:)
    then show ?thesis
      using "2.IH"(2) [OF refl False] by metis
  qed
qed

lemma matchedIds_digits:
  "categoryId \<in> set (matchedIds html) \<Longrightarrow> categoryId \<noteq> [] \<and> list_all digit categoryId"
  unfolding matchedIds_def using matches_digits by auto

lemma plain_text_digits: "list_all digit s \<Longrightarrow> plain_text s"
  unfolding plain_text_def list_all_iff digit_def by auto

subsection \<open>The category card\<close>

lemma first5: "first5Clues st = take 5 (clues (category st))"
  by (simp add: first5Clues_def slice_def)

lemma map_on_click_listItems: "map on_click (listItems answd favs st) = take 5 (clues (category st))"
  by (simp add: listItems_def first5 o_def)

text \<open>
  C10. The buttons of a card are those of the first five clues of the category, in their
  order: there are five of them, or as many as there are clues if fewer, the button at
  position \<open>i\<close> selects the clue at position \<open>i\<close> and shows its value, and no button
  belongs to a clue behind the fifth.
\<close>

theorem listItems_first_five:
  "map on_click (listItems answd favs st) = take 5 (clues (category st))
   \<and> length (listItems answd favs st) = min 5 (length (clues (category st)))
   \<and> (\<forall>i < length (listItems answd favs st).
        on_click (listItems answd favs st ! i) = clues (category st) ! i
        \<and> dollars (listItems answd favs st ! i) = clue_value (clues (category st) ! i))"
proof -
  have len: "length (listItems answd favs st) = min 5 (length (clues (category st)))"
    by (simp add: listItems_def first5 min.commute)
  have "\<forall>i < length (listItems answd favs st).
        on_click (listItems answd favs st ! i) = clues (category st) ! i
        \<and> dollars (listItems answd favs st ! i) = clue_value (clues (category st) ! i)"
    by (simp add: listItems_def first5)
  then show ?thesis
    using len map_on_click_listItems by blast
qed

text \<open>A witness for C10: a card with six clues has five buttons, the last for the fifth clue.\<close>

theorem listItems_first_five_witness:
  "length (listItems [] [] six_clues) = 5
   \<and> (4::nat) < length (listItems [] [] six_clues)
   \<and> on_click (listItems [] [] six_clues ! 4) = example_clue 5 ''Q5'' ''gnu'' (Some 400)"
proof -
  have c: "clues (category six_clues) =
      [example_clue 1 ''Q1'' ''cat'' (Some 0), example_clue 2 ''Q2'' ''ox'' (Some 100),
       example_clue 3 ''Q3'' ''emu'' (Some 200), example_clue 4 ''Q4'' ''yak'' (Some 300),
       example_clue 5 ''Q5'' ''gnu'' (Some 400), example_clue 6 ''Q6'' ''eel'' (Some 500)]"
    by (simp add: six_clues_def)
  have l: "length (listItems [] [] six_clues) = 5"
    using listItems_first_five [of "[]" "[]" six_clues] by (simp add: c)
  then have "on_click (listItems [] [] six_clues ! 4) = clues (category six_clues) ! 4"
    using listItems_first_five [of "[]" "[]" six_clues] by simp
  then show ?thesis
    using l by (simp add: c)
qed

end
